theory Spec2Isabelle
  imports Complex_Main "HOL-Library.Word"
begin

unbundle bit_operations_syntax

section \<open>The receiver sketch: \<open>src/code/receive/receive.ino\<close>\<close>

text \<open>
  The sketch keeps its state in file-scope variables and mutates them in \<open>loop()\<close>.
  The state is a record with one field per variable; \<open>uint16_t\<close> is \<open>16 word\<close>,
  \<open>unsigned long\<close> (the type of \<open>millis()\<close>) is \<open>32 word\<close>, so every \<open>+\<close> and
  \<open>-\<close> wraps as the C arithmetic followed by the cast does.

  \<open>int16_t results[16]\<close> is the 32-byte buffer that \<open>radio.read\<close> fills and that the
  framing loop reads back byte by byte through \<open>(byte*) results\<close>. It is modelled as
  those bytes (\<open>rx_results\<close>; the sender sketch has an array of the same name), and
  \<open>results[i]\<close> is the 16-bit value at bytes \<open>2 i\<close> and \<open>2 i + 1\<close>, low byte first
  as on the little-endian Arduino targets.
\<close>

record receiver =
  rx_results :: "8 word list"
  lastPacketNumber :: "16 word"
  receivedPackets :: "16 word"
  lostPackets :: "16 word"
  isSynced :: bool
  lastPacketMs :: "32 word"

text \<open>The initialisers of the file-scope variables.\<close>

definition receiver_init :: receiver where
  "receiver_init =
     \<lparr>rx_results = replicate 32 0, lastPacketNumber = 0, receivedPackets = 0,
      lostPackets = 0, isSynced = False, lastPacketMs = 0\<rparr>"

text \<open>\<open>results[i]\<close> read from the byte buffer.\<close>

definition int16_at :: "8 word list \<Rightarrow> nat \<Rightarrow> 16 word" where
  "int16_at buf i = push_bit 8 (ucast (buf ! (2 * i + 1))) OR ucast (buf ! (2 * i))"

text \<open>
  What the sketch writes to \<open>Serial\<close>, one item per call: \<open>Serial.print\<close> of a
  character, \<open>Serial.write\<close> of a byte, \<open>Serial.print\<close> of a flash string, of a
  \<open>uint16_t\<close> and of an \<open>int16_t\<close> (both printed in decimal), and \<open>Serial.println()\<close>.
  The loss rate is the one floating-point value of the sketch,
  \<open>(float)lostPackets / (receivedPackets + lostPackets) * 100\<close>; the item
  \<open>PrintLossRate lost received\<close> records the two counters it is computed from and
  leaves the floating-point arithmetic out.
\<close>

datatype serial_item =
    PrintChar char
  | WriteByte "8 word"
  | PrintStr string
  | PrintU16 "16 word"
  | PrintI16 "16 word"
  | PrintLossRate "16 word" "16 word"
  | Println

definition isNextModulo :: "16 word \<Rightarrow> 16 word \<Rightarrow> bool" where
  "isNextModulo current previous \<longleftrightarrow> current = previous + 1"

text \<open>
  Lines 73 to 98 of \<open>loop()\<close>: the sync and loss bookkeeping for an arriving packet
  number \<open>currentPacketNumber\<close> at time \<open>nowMs\<close>.
\<close>

definition track_sequence :: "16 word \<Rightarrow> 32 word \<Rightarrow> receiver \<Rightarrow> receiver" where
  "track_sequence currentPacketNumber nowMs s =
     (if \<not> isSynced s \<or> nowMs - lastPacketMs s > 5000 then
        s\<lparr>isSynced := True, lastPacketNumber := currentPacketNumber, lastPacketMs := nowMs\<rparr>
      else if \<not> isNextModulo currentPacketNumber (lastPacketNumber s) then
        (let looksLikeReset = (currentPacketNumber \<le> 5) in
         if looksLikeReset then
           s\<lparr>lastPacketNumber := currentPacketNumber, lastPacketMs := nowMs\<rparr>
         else
           (let expected = lastPacketNumber s + 1;
                diff = currentPacketNumber - expected
            in s\<lparr>lostPackets := lostPackets s + diff,
                 lastPacketNumber := currentPacketNumber, lastPacketMs := nowMs\<rparr>))
      else
        s\<lparr>lastPacketNumber := currentPacketNumber, lastPacketMs := nowMs\<rparr>)"

text \<open>Lines 105 to 114: the frame for the host script.\<close>

definition frame :: "8 word list \<Rightarrow> serial_item list" where
  "frame buf =
     PrintChar CHR ''D'' # map (\<lambda>i. WriteByte (buf ! i)) [0..<32] @ [PrintChar CHR ''E'']"

text \<open>Lines 117 to 135: the diagnostic text after the frame.\<close>

definition debug_line :: "16 word \<Rightarrow> 8 word list \<Rightarrow> serial_item list" where
  "debug_line currentPacketNumber buf =
     [PrintStr ''Packet '', PrintU16 currentPacketNumber, PrintStr '' received. Data: '']
     @ concat (map (\<lambda>i. [PrintI16 (int16_at buf i), PrintStr '' '']) [0..<15])
     @ [Println]
     @ (if 0 < sint (int16_at buf 12) \<or> 0 < sint (int16_at buf 13) then
          [PrintStr ''Air Quality - CO2: '', PrintI16 (int16_at buf 12),
           PrintStr '' ppm, TVOC: '', PrintI16 (int16_at buf 13),
           PrintStr '' ppb, Baseline: '', PrintI16 (int16_at buf 14), Println]
        else [])"

text \<open>
  Lines 66 to 135: the body of \<open>if (radio.available())\<close>, for the 32-byte payload that
  \<open>radio.read\<close> copies into \<open>results\<close> and the value \<open>nowMs\<close> of \<open>millis()\<close>.
\<close>

definition on_packet :: "8 word list \<Rightarrow> 32 word \<Rightarrow> receiver \<Rightarrow> receiver \<times> serial_item list" where
  "on_packet payload nowMs s =
     (let s1 = s\<lparr>rx_results := payload\<rparr>;
          currentPacketNumber = int16_at (rx_results s1) 7;
          s2 = track_sequence currentPacketNumber nowMs s1;
          s3 = s2\<lparr>receivedPackets := receivedPackets s2 + 1\<rparr>
      in (s3, frame (rx_results s3) @ debug_line currentPacketNumber (rx_results s3)))"

text \<open>Lines 139 to 147: the statistics block, which follows the \<open>if\<close> block.\<close>

definition print_statistics :: "receiver \<Rightarrow> serial_item list" where
  "print_statistics s =
     (if unat (receivedPackets s) mod 100 = 0 \<and> 0 < receivedPackets s then
        [PrintStr ''Statistics - Received: '', PrintU16 (receivedPackets s),
         PrintStr '', Lost: '', PrintU16 (lostPackets s),
         PrintStr '', Loss rate: '', PrintLossRate (lostPackets s) (receivedPackets s),
         PrintStr ''%'', Println]
      else [])"

text \<open>
  One pass of \<open>loop()\<close>. The first argument is what the radio holds: \<open>None\<close> when
  \<open>radio.available()\<close> is false, the payload otherwise.
\<close>

definition loop_rx :: "8 word list option \<Rightarrow> 32 word \<Rightarrow> receiver \<Rightarrow> receiver \<times> serial_item list" where
  "loop_rx avail nowMs s =
     (let (s1, out) = (case avail of None \<Rightarrow> (s, []) | Some payload \<Rightarrow> on_packet payload nowMs s)
      in (s1, out @ print_statistics s1))"

text \<open>Successive passes of \<open>loop()\<close>, the output concatenated.\<close>

fun run_rx :: "(8 word list option \<times> 32 word) list \<Rightarrow> receiver \<Rightarrow> receiver \<times> serial_item list" where
  "run_rx [] s = (s, [])"
| "run_rx ((avail, nowMs) # rest) s =
     (let (s1, out1) = loop_rx avail nowMs s;
          (s2, out2) = run_rx rest s1
      in (s2, out1 @ out2))"


text \<open>
  Concrete inputs for the examples: a 32-byte payload whose field 7 is \<open>n\<close> and whose
  other fields are 0, the receiver after its first arrival (packet number \<open>n\<close> at time
  \<open>t\<close>), and the number of loss-rate statistics in an output.
\<close>

definition packet_with_sequence :: "16 word \<Rightarrow> 8 word list" where
  "packet_with_sequence n = replicate 14 0 @ [ucast n, ucast (drop_bit 8 n)] @ replicate 16 0"

definition after_first_arrival :: "16 word \<Rightarrow> 32 word \<Rightarrow> receiver" where
  "after_first_arrival n t = fst (loop_rx (Some (packet_with_sequence n)) t receiver_init)"

fun is_loss_rate :: "serial_item \<Rightarrow> bool" where
  "is_loss_rate (PrintLossRate lost received) = True"
| "is_loss_rate _ = False"

definition count_statistics :: "serial_item list \<Rightarrow> nat" where
  "count_statistics out = length (filter is_loss_rate out)"


section \<open>The sender sketch: \<open>src/code/weather_station/weather_station.ino\<close>\<close>

text \<open>
  One field per file-scope variable that \<open>loop()\<close> reads or writes. The global
  \<open>bool currentState\<close> is shadowed by the local of \<open>readRainReedData\<close> and never used,
  so it has no field. \<open>reset_pin\<close> is the level the sketch drives on \<open>RESET_PIN\<close>
  (\<open>True\<close> for \<open>HIGH\<close>). \<open>int16_t results[16]\<close> is a list of sixteen 16-bit words; a
  cast from \<open>uint16_t\<close> to \<open>int16_t\<close> keeps the bits, \<open>sint\<close> reads a field as the
  signed value and \<open>uint\<close> as the unsigned one.

  \<open>float time_stamp\<close> starts at 0 and is only ever incremented, so it holds a natural
  number; \<open>float_increment\<close> is \<open>time_stamp++\<close> in IEEE single precision, where
  adding 1 to \<open>2^24\<close> gives \<open>2^24\<close> again.

  The messages the sender prints on \<open>Serial\<close> are diagnostics that change no
  variable; they are left out, and with them \<open>printDebugInfo\<close> and
  \<open>printTransmissionStats\<close>.
\<close>

record sender =
  bme_sensor_available :: bool
  mlx_sensor_available :: bool
  light_sensor_available :: bool
  ccs811_sensor_available :: bool
  radio_available :: bool
  InterruptCounter :: int
  wind_revolutions_this_cycle :: "16 word"
  firstLoop :: bool
  lastState :: bool
  lastChanged :: "32 word"
  accumulated_rain_tips :: "16 word"
  rain_data_pending :: bool
  results :: "16 word list"
  packetNumber :: "16 word"
  lastTransmissionTime :: "32 word"
  successfulTransmissions :: "16 word"
  failedTransmissions :: "16 word"
  time_stamp :: nat
  reset_pin :: bool

text \<open>
  The state when \<open>setup()\<close> returns: the initialisers of the variables, and the
  availability flags as the \<open>initialize...\<close> functions found the hardware.
  \<open>initializeCCS811\<close> returns only once the sensor has answered, so its flag is set.
\<close>

definition sender_init :: "bool \<Rightarrow> bool \<Rightarrow> bool \<Rightarrow> bool \<Rightarrow> sender" where
  "sender_init bme mlx light radio =
     \<lparr>bme_sensor_available = bme, mlx_sensor_available = mlx,
      light_sensor_available = light, ccs811_sensor_available = True,
      radio_available = radio, InterruptCounter = 0, wind_revolutions_this_cycle = 0,
      firstLoop = True, lastState = False, lastChanged = 0, accumulated_rain_tips = 0,
      rain_data_pending = False, results = replicate 16 0, packetNumber = 0,
      lastTransmissionTime = 0, successfulTransmissions = 0, failedTransmissions = 0,
      time_stamp = 0, reset_pin = True\<rparr>"

text \<open>
  Floating-point values are the real numbers they stand for, and a product such as
  \<open>temp * 100.0\<close> is the product of the two reals: the rounding of the floating-point
  multiplication, NaN and the infinities are not modelled.

  The cast \<open>(int16_t) x\<close> of a floating-point value discards the fractional part.
  C++ leaves the conversion undefined when the truncated value is not an \<open>int16_t\<close>;
  the compilers of the Arduino targets convert to a 32-bit integer and keep its low 16
  bits, so that a product of 1013250 gives 30210, and the model does the same. Beyond
  the 32-bit range the result is whatever \<open>oor\<close> says, a parameter that stands for the
  compiled program's behaviour there.
\<close>

definition truncate_toward_zero :: "real \<Rightarrow> int" where
  "truncate_toward_zero x = (if 0 \<le> x then \<lfloor>x\<rfloor> else \<lceil>x\<rceil>)"

definition float_to_int16 :: "(real \<Rightarrow> 16 word) \<Rightarrow> real \<Rightarrow> 16 word" where
  "float_to_int16 oor x =
     (if - 2147483649 < x \<and> x < 2147483648 then word_of_int (truncate_toward_zero x)
      else oor x)"

definition float_increment :: "nat \<Rightarrow> nat" where
  "float_increment n = (if n < 16777216 then n + 1 else n)"

text \<open>
  \<open>readBME280Data\<close>, for what \<open>bme.readTemperature()\<close>, \<open>bme.readPressure()\<close> and
  \<open>bme.readHumidity()\<close> return.
\<close>

definition readBME280Data :: "(real \<Rightarrow> 16 word) \<Rightarrow> real \<Rightarrow> real \<Rightarrow> real \<Rightarrow> sender \<Rightarrow> sender" where
  "readBME280Data oor temp pressure humidity s =
     (if bme_sensor_available s then
        s\<lparr>results := (results s)
              [1 := float_to_int16 oor (temp * 100),
               2 := float_to_int16 oor (pressure * 10),
               3 := float_to_int16 oor (humidity * 100)]\<rparr>
      else s\<lparr>results := (results s)[1 := 0, 2 := 0, 3 := 0]\<rparr>)"

text \<open>
  \<open>readMLX90614Data\<close>, for what \<open>mlx.readObjectTempC()\<close> and
  \<open>mlx.readAmbientTempC()\<close> return.
\<close>

definition readMLX90614Data :: "(real \<Rightarrow> 16 word) \<Rightarrow> real \<Rightarrow> real \<Rightarrow> sender \<Rightarrow> sender" where
  "readMLX90614Data oor sky_temp box_temp s =
     (if mlx_sensor_available s then
        s\<lparr>results := (results s)
              [8 := float_to_int16 oor (sky_temp * 100),
               9 := float_to_int16 oor (box_temp * 100)]\<rparr>
      else s\<lparr>results := (results s)[8 := 0, 9 := 0]\<rparr>)"

text \<open>
  \<open>readTSL2591Data\<close>: \<open>(int16_t)min(lux_raw, 65535UL)\<close> for the \<open>uint32_t\<close> reading;
  the cast keeps the low 16 bits.
\<close>

definition readTSL2591Data :: "32 word \<Rightarrow> sender \<Rightarrow> sender" where
  "readTSL2591Data lux_raw s =
     (if light_sensor_available s then
        s\<lparr>results := (results s)[4 := ucast (min lux_raw 65535)]\<rparr>
      else s\<lparr>results := (results s)[4 := 0]\<rparr>)"

text \<open>
  \<open>readCCS811Data\<close>, for the answer of \<open>checkDataReady()\<close> and the three \<open>uint16_t\<close>
  readings. The compensation it writes to the sensor changes no variable of the sketch.
\<close>

definition readCCS811Data :: "bool \<Rightarrow> 16 word \<Rightarrow> 16 word \<Rightarrow> 16 word \<Rightarrow> sender \<Rightarrow> sender" where
  "readCCS811Data data_ready co2 tvoc baseline s =
     (if ccs811_sensor_available s then
        (if data_ready then
           s\<lparr>results := (results s)[12 := co2, 13 := tvoc, 14 := baseline]\<rparr>
         else s\<lparr>results := (results s)[12 := 0, 13 := 0, 14 := 0]\<rparr>)
      else s\<lparr>results := (results s)[12 := 0, 13 := 0, 14 := 0]\<rparr>)"

text \<open>
  \<open>readRainReedData\<close>, for the level read from the reed pin (\<open>True\<close> for \<open>HIGH\<close>)
  and the two values of \<open>millis()\<close>: the one compared with \<open>lastChanged\<close> and the one
  stored in it.
\<close>

definition readRainReedData :: "bool \<Rightarrow> 32 word \<Rightarrow> 32 word \<Rightarrow> sender \<Rightarrow> sender" where
  "readRainReedData currentState millis_check millis_store s =
     (let s1 = (if firstLoop s then s\<lparr>lastState := currentState, firstLoop := False\<rparr> else s);
          s2 = (if currentState \<noteq> lastState s1 then
                  (if millis_check - lastChanged s1 > 250 then
                     (let s' = (if currentState \<and> \<not> lastState s1 then
                                  s1\<lparr>accumulated_rain_tips := accumulated_rain_tips s1 + 1,
                                     rain_data_pending := True\<rparr>
                                else s1)
                      in s'\<lparr>lastState := currentState, lastChanged := millis_store\<rparr>)
                   else s1)
                else s1)
      in s2\<lparr>results := (results s2)[5 := accumulated_rain_tips s2]\<rparr>)"

text \<open>
  The condition under which \<open>readRainReedData\<close> executes \<open>accumulated_rain_tips++\<close>
  (lines 369 to 380): not the first pass, a level that differs from \<open>lastState\<close>, more
  than 250 ms since \<open>lastChanged\<close>, and a change from \<open>LOW\<close> to \<open>HIGH\<close>.
\<close>

definition rain_tip_registered :: "bool \<Rightarrow> 32 word \<Rightarrow> sender \<Rightarrow> bool" where
  "rain_tip_registered currentState millis_check s \<longleftrightarrow>
     \<not> firstLoop s \<and> currentState \<noteq> lastState s \<and> millis_check - lastChanged s > 250
     \<and> currentState \<and> \<not> lastState s"

text \<open>
  \<open>readRainDropData\<close>, for the \<open>int\<close> of \<open>analogRead\<close> and the level of the digital
  pin.
\<close>

definition readRainDropData :: "int \<Rightarrow> bool \<Rightarrow> sender \<Rightarrow> sender" where
  "readRainDropData rainDropAnalogVal rainDropDigitalVal s =
     (let isRaining = (\<not> rainDropDigitalVal)
      in s\<lparr>results := (results s)
              [10 := (if isRaining then 1 else 0), 11 := word_of_int rainDropAnalogVal]\<rparr>)"

text \<open>
  \<open>readAnemometerData\<close>, for the number of times the interrupt handler \<open>countup\<close> runs
  during the measurement window.
\<close>

definition readAnemometerData :: "nat \<Rightarrow> sender \<Rightarrow> sender" where
  "readAnemometerData pulses s =
     (let s1 = s\<lparr>InterruptCounter := 0\<rparr>;
          s2 = s1\<lparr>InterruptCounter := InterruptCounter s1 + int pulses\<rparr>;
          s3 = s2\<lparr>wind_revolutions_this_cycle := word_of_int (InterruptCounter s2)\<rparr>
      in s3\<lparr>results := (results s3)[6 := wind_revolutions_this_cycle s3]\<rparr>)"

text \<open>
  What \<open>transmitData\<close> does with the radio: nothing, or one call of \<open>radio.write\<close>
  with the record, which the radio reports as delivered or not.
\<close>

datatype radio_event =
    NoAttempt
  | Delivered "16 word list"
  | Undelivered "16 word list"

text \<open>
  \<open>transmitData\<close>, for the result of \<open>radio.write\<close> and the values of \<open>millis()\<close>
  before and after it.
\<close>

definition transmitData :: "bool \<Rightarrow> 32 word \<Rightarrow> 32 word \<Rightarrow> sender \<Rightarrow> sender \<times> radio_event" where
  "transmitData write_ok millis_start millis_end s =
     (if radio_available s then
        (let s1 =
           (if write_ok then
              (let s' = s\<lparr>successfulTransmissions := successfulTransmissions s + 1,
                          lastTransmissionTime := millis_end - millis_start\<rparr>
               in if rain_data_pending s' then
                    s'\<lparr>accumulated_rain_tips := 0, rain_data_pending := False\<rparr>
                  else s')
            else s\<lparr>failedTransmissions := failedTransmissions s + 1\<rparr>)
         in (s1\<lparr>packetNumber := packetNumber s1 + 1\<rparr>,
             if write_ok then Delivered (results s) else Undelivered (results s)))
      else (s, NoAttempt))"

definition checkAutoReset :: "32 word \<Rightarrow> sender \<Rightarrow> sender" where
  "checkAutoReset millis_now s =
     (if millis_now > 3600000 then s\<lparr>reset_pin := False\<rparr> else s)"

text \<open>Everything one pass of \<open>loop()\<close> takes from the hardware.\<close>

record cycle_inputs =
  cast_out_of_range :: "real \<Rightarrow> 16 word"
  bme_temp :: real
  bme_pressure :: real
  bme_humidity :: real
  mlx_sky_temp :: real
  mlx_box_temp :: real
  lux_raw :: "32 word"
  ccs_data_ready :: bool
  ccs_co2 :: "16 word"
  ccs_tvoc :: "16 word"
  ccs_baseline :: "16 word"
  reed_level :: bool
  reed_millis_check :: "32 word"
  reed_millis_store :: "32 word"
  drop_analog :: int
  drop_digital :: bool
  wind_pulses :: nat
  radio_write_ok :: bool
  tx_millis_start :: "32 word"
  tx_millis_end :: "32 word"
  reset_millis :: "32 word"

text \<open>Lines 215 to 246 of \<open>loop()\<close>: the record is filled.\<close>

definition collect_readings :: "cycle_inputs \<Rightarrow> sender \<Rightarrow> sender" where
  "collect_readings inp s =
     (let s1 = s\<lparr>time_stamp := float_increment (time_stamp s)\<rparr>;
          s2 = s1\<lparr>results := (results s1)
                  [0 := float_to_int16 (cast_out_of_range inp) (of_nat (time_stamp s1))]\<rparr>;
          s3 = readBME280Data (cast_out_of_range inp) (bme_temp inp)
                 (bme_pressure inp) (bme_humidity inp) s2;
          s4 = readMLX90614Data (cast_out_of_range inp) (mlx_sky_temp inp) (mlx_box_temp inp) s3;
          s5 = readTSL2591Data (lux_raw inp) s4;
          s6 = readCCS811Data (ccs_data_ready inp) (ccs_co2 inp) (ccs_tvoc inp)
                 (ccs_baseline inp) s5;
          s7 = readRainReedData (reed_level inp) (reed_millis_check inp)
                 (reed_millis_store inp) s6;
          s8 = readRainDropData (drop_analog inp) (drop_digital inp) s7;
          s9 = readAnemometerData (wind_pulses inp) s8;
          s10 = s9\<lparr>results := (results s9)[7 := packetNumber s9]\<rparr>
      in s10\<lparr>results := (results s10)[15 := 0]\<rparr>)"

text \<open>One pass of \<open>loop()\<close>, with what it hands to the radio.\<close>

definition loop_tx :: "cycle_inputs \<Rightarrow> sender \<Rightarrow> sender \<times> radio_event" where
  "loop_tx inp s =
     (let (s1, event) = transmitData (radio_write_ok inp) (tx_millis_start inp)
                          (tx_millis_end inp) (collect_readings inp s)
      in (checkAutoReset (reset_millis inp) s1, event))"

text \<open>
  The states the sender can be in: the state after \<open>setup()\<close>, and any state that one
  of the operations called by \<open>loop()\<close> produces from such a state.
\<close>

inductive tx_reachable :: "sender \<Rightarrow> bool" where
  after_setup: "tx_reachable (sender_init bme mlx light radio)"
| after_collect: "tx_reachable s \<Longrightarrow> tx_reachable (collect_readings inp s)"
| after_reed: "tx_reachable s \<Longrightarrow> tx_reachable (readRainReedData level t1 t2 s)"
| after_transmit: "tx_reachable s \<Longrightarrow> tx_reachable (fst (transmitData ok t1 t2 s))"
| after_reset_check: "tx_reachable s \<Longrightarrow> tx_reachable (checkAutoReset t s)"


text \<open>
  What holds of the rain variables and the record in every state the sender reaches:
  the record has its 16 fields, and the accumulator is 0 unless \<open>rain_data_pending\<close>
  is set.
\<close>

definition rain_consistent :: "sender \<Rightarrow> bool" where
  "rain_consistent s \<longleftrightarrow>
     length (results s) = 16 \<and> (rain_data_pending s \<or> accumulated_rain_tips s = 0)"

text \<open>
  Concrete inputs for the examples: one pass's inputs with the given reed level, time
  and radio result (23.4375 degrees, 101325 Pa, an illuminance of 40000), and the sender
  after the reed sensor read \<open>LOW\<close> on the first pass and \<open>HIGH\<close> at 1000 ms, so
  that one tip is registered.
\<close>

definition example_inputs :: "bool \<Rightarrow> 32 word \<Rightarrow> bool \<Rightarrow> cycle_inputs" where
  "example_inputs level t write_ok =
     \<lparr>cast_out_of_range = (\<lambda>x. 0), bme_temp = 23.4375, bme_pressure = 101325,
      bme_humidity = 45.5, mlx_sky_temp = - 12.5, mlx_box_temp = 25.75,
      lux_raw = 40000, ccs_data_ready = True, ccs_co2 = 415, ccs_tvoc = 12,
      ccs_baseline = 34000, reed_level = level, reed_millis_check = t,
      reed_millis_store = t, drop_analog = 1023, drop_digital = True, wind_pulses = 7,
      radio_write_ok = write_ok, tx_millis_start = t + 1010, tx_millis_end = t + 1020,
      reset_millis = t + 1030\<rparr>"



section \<open>Properties of the receiver\<close>

lemma length_packet_with_sequence: "length (packet_with_sequence n) = 32"
  by (simp add: packet_with_sequence_def)

lemma int16_at_packet_with_sequence: "int16_at (packet_with_sequence n) 7 = n"
proof -
  have lo: "packet_with_sequence n ! 14 = ucast n"
    by (simp add: packet_with_sequence_def nth_append)
  have hi: "packet_with_sequence n ! 15 = ucast (drop_bit 8 n)"
    by (simp add: packet_with_sequence_def nth_append)
  have "push_bit 8 (ucast (ucast (drop_bit 8 n) :: 8 word)) OR ucast (ucast n :: 8 word) = n"
    by (rule bit_word_eqI) (auto simp: bit_simps)
  then show ?thesis
    by (simp add: int16_at_def lo hi)
qed

lemma frame_bytes:
  assumes "length buf = 32"
  shows "frame buf = PrintChar CHR ''D'' # map WriteByte buf @ [PrintChar CHR ''E'']"
proof -
  have "map (\<lambda>i. WriteByte (buf ! i)) [0..<32] = map WriteByte (map ((!) buf) [0..<length buf])"
    using assms by simp
  also have "\<dots> = map WriteByte buf"
    by (simp only: map_nth)
  finally show ?thesis
    by (simp add: frame_def)
qed

lemma unat_next_iff:
  fixes c p :: "16 word"
  shows "unat c = (unat p + 1) mod 65536 \<longleftrightarrow> c = p + 1"
proof -
  have "unat (p + 1) = (unat p + 1) mod 65536"
    by (simp add: unat_word_ariths)
  then show ?thesis
    by (simp add: word_unat_eq_iff)
qed

lemma fst_loop_rx_Some:
  "fst (loop_rx (Some payload) nowMs s) =
     (track_sequence (int16_at payload 7) nowMs (s\<lparr>rx_results := payload\<rparr>))
       \<lparr>receivedPackets :=
          receivedPackets (track_sequence (int16_at payload 7) nowMs (s\<lparr>rx_results := payload\<rparr>)) + 1\<rparr>"
  by (simp add: loop_rx_def on_packet_def Let_def)

lemma fst_loop_rx_None: "fst (loop_rx None nowMs s) = s"
  by (simp add: loop_rx_def)

lemma track_sequence_fields:
  "rx_results (track_sequence c t s) = rx_results s"
  "receivedPackets (track_sequence c t s) = receivedPackets s"
  "lastPacketMs (track_sequence c t s) = t"
  "lastPacketNumber (track_sequence c t s) = c"
  by (simp_all add: track_sequence_def Let_def)

lemma after_first_arrival_fields:
  "isSynced (after_first_arrival n t)"
  "lastPacketNumber (after_first_arrival n t) = n"
  "lastPacketMs (after_first_arrival n t) = t"
  "lostPackets (after_first_arrival n t) = 0"
  "receivedPackets (after_first_arrival n t) = 1"
  by (simp_all add: after_first_arrival_def fst_loop_rx_Some track_sequence_def
      receiver_init_def int16_at_packet_with_sequence)

lemma isSynced_loop_rx:
  "isSynced (fst (loop_rx avail nowMs s)) \<longleftrightarrow> isSynced s \<or> avail \<noteq> None"
  by (cases avail) (auto simp add: fst_loop_rx_None fst_loop_rx_Some track_sequence_def Let_def)

lemma fst_run_rx_Cons:
  "fst (run_rx (p # rest) s) = fst (run_rx rest (fst (loop_rx (fst p) (snd p) s)))"
  by (cases p) (simp add: split_def Let_def)

lemma isSynced_run_rx:
  "isSynced (fst (run_rx ins s)) \<longleftrightarrow> isSynced s \<or> (\<exists>p \<in> set ins. fst p \<noteq> None)"
proof (induction ins arbitrary: s)
  case Nil
  show ?case by simp
next
  case (Cons p rest)
  show ?case
    by (simp only: fst_run_rx_Cons Cons.IH isSynced_loop_rx) auto
qed

lemma count_statistics_append:
  "count_statistics (xs @ ys) = count_statistics xs + count_statistics ys"
  by (simp add: count_statistics_def)

lemma count_statistics_on_packet: "count_statistics (snd (on_packet payload nowMs s)) = 0"
  by (simp add: on_packet_def Let_def count_statistics_def frame_def debug_line_def
      filter_concat comp_def)

lemma count_statistics_print:
  "count_statistics (print_statistics s) =
     (if unat (receivedPackets s) mod 100 = 0 \<and> 0 < receivedPackets s then 1 else 0)"
  by (simp add: print_statistics_def count_statistics_def)

lemma count_statistics_loop_rx:
  "count_statistics (snd (loop_rx avail nowMs s)) =
     (if unat (receivedPackets (fst (loop_rx avail nowMs s))) mod 100 = 0
         \<and> 0 < receivedPackets (fst (loop_rx avail nowMs s)) then 1 else 0)"
proof (cases avail)
  case None
  then show ?thesis
    by (simp add: loop_rx_def count_statistics_print)
next
  case (Some payload)
  have "snd (loop_rx (Some payload) nowMs s) =
          snd (on_packet payload nowMs s) @ print_statistics (fst (loop_rx (Some payload) nowMs s))"
    by (simp add: loop_rx_def split_def Let_def)
  then show ?thesis
    by (simp add: Some count_statistics_append count_statistics_on_packet count_statistics_print)
qed

lemma receivedPackets_loop_rx:
  "receivedPackets (fst (loop_rx avail nowMs s)) =
     receivedPackets s + (if avail = None then 0 else 1)"
  by (cases avail) (simp_all add: fst_loop_rx_None fst_loop_rx_Some track_sequence_fields)

lemma receivedPackets_run_rx:
  "receivedPackets (fst (run_rx ins s)) =
     receivedPackets s + of_nat (length (filter (\<lambda>p. fst p \<noteq> None) ins))"
proof (induction ins arbitrary: s)
  case Nil
  show ?case by simp
next
  case (Cons p rest)
  show ?case
    by (simp only: fst_run_rx_Cons Cons.IH receivedPackets_loop_rx) simp
qed

lemma idle_pass_repeats_statistics:
  assumes "unat (receivedPackets s) mod 100 = 0" and "0 < receivedPackets s"
  shows "fst (loop_rx None nowMs s) = s \<and> count_statistics (snd (loop_rx None nowMs s)) = 1"
  using assms by (simp add: fst_loop_rx_None count_statistics_loop_rx)


text \<open>
  C1, as the sketch has it. When the receiver is synced and the arrival comes at most
  5000 ms after the previous one (\<open>millis()\<close> differences are taken modulo \<open>2^32\<close>)
  and does not continue the sequence, the arriving number becomes the baseline; a
  number of at most 5 counts no loss, a larger one adds
  \<open>(arriving - (previous + 1)) mod 65536\<close> to the 16-bit loss counter, which itself
  wraps modulo 65536. In particular \<open>previous + 50\<close>, when above 5, adds 49.
\<close>

theorem out_of_sequence_within_idle_window:
  assumes "isSynced s" and "nowMs - lastPacketMs s \<le> 5000"
    and "unat (int16_at payload 7) \<noteq> (unat (lastPacketNumber s) + 1) mod 65536"
  shows "lastPacketNumber (fst (loop_rx (Some payload) nowMs s)) = int16_at payload 7
       \<and> lostPackets (fst (loop_rx (Some payload) nowMs s)) =
           (if int16_at payload 7 \<le> 5 then lostPackets s
            else lostPackets s + (int16_at payload 7 - (lastPacketNumber s + 1)))
       \<and> uint (lostPackets s + (int16_at payload 7 - (lastPacketNumber s + 1))) =
           (uint (lostPackets s)
             + (uint (int16_at payload 7) - (uint (lastPacketNumber s) + 1)) mod 65536) mod 65536
       \<and> (5 < int16_at payload 7 \<and> int16_at payload 7 = lastPacketNumber s + 50 \<longrightarrow>
            lostPackets (fst (loop_rx (Some payload) nowMs s)) = lostPackets s + 49)"
proof -
  let ?cur = "int16_at payload 7"
  let ?s' = "fst (loop_rx (Some payload) nowMs s)"
  from assms(3) have ne: "?cur \<noteq> lastPacketNumber s + 1"
    by (simp only: unat_next_iff not_False_eq_True)
  have gap: "\<not> 5000 < nowMs - lastPacketMs s"
    using assms(2) by simp
  have a: "lastPacketNumber ?s' = ?cur"
    by (simp add: fst_loop_rx_Some track_sequence_fields)
  have b: "lostPackets ?s' =
      (if ?cur \<le> 5 then lostPackets s else lostPackets s + (?cur - (lastPacketNumber s + 1)))"
    using assms(1) gap ne
    by (simp add: fst_loop_rx_Some track_sequence_def isNextModulo_def Let_def)
  have c: "uint (lostPackets s + (?cur - (lastPacketNumber s + 1))) =
             (uint (lostPackets s) + (uint ?cur - (uint (lastPacketNumber s) + 1)) mod 65536) mod 65536"
    by (simp add: uint_word_ariths mod_simps)
  have d: "5 < ?cur \<and> ?cur = lastPacketNumber s + 50 \<longrightarrow> lostPackets ?s' = lostPackets s + 49"
    using b by auto
  from a b c d show ?thesis
    by blast
qed

theorem out_of_sequence_within_idle_window_witness:
  "isSynced (after_first_arrival 10 1000)
   \<and> (2000 :: 32 word) - lastPacketMs (after_first_arrival 10 1000) \<le> 5000
   \<and> unat (int16_at (packet_with_sequence 60) 7)
       \<noteq> (unat (lastPacketNumber (after_first_arrival 10 1000)) + 1) mod 65536
   \<and> lastPacketNumber
       (fst (loop_rx (Some (packet_with_sequence 60)) 2000 (after_first_arrival 10 1000))) = 60
   \<and> lostPackets
       (fst (loop_rx (Some (packet_with_sequence 60)) 2000 (after_first_arrival 10 1000))) = 49"
proof -
  have h1: "isSynced (after_first_arrival 10 1000)"
    by (simp add: after_first_arrival_fields)
  have h2: "(2000 :: 32 word) - lastPacketMs (after_first_arrival 10 1000) \<le> 5000"
    by (simp add: after_first_arrival_fields)
  have h3: "unat (int16_at (packet_with_sequence 60) 7)
       \<noteq> (unat (lastPacketNumber (after_first_arrival 10 1000)) + 1) mod 65536"
    by (simp add: after_first_arrival_fields int16_at_packet_with_sequence)
  from out_of_sequence_within_idle_window [OF h1 h2 h3] h1 h2 h3 show ?thesis
    by (simp add: after_first_arrival_fields int16_at_packet_with_sequence)
qed

text \<open>
  C1 as stated fails twice. On an arrival that follows an idle gap: the receiver is
  synced with baseline 10 and no loss, packet 1000 arrives 6001 ms later, out of
  sequence and above 5, and the loss counter stays 0 where the claim adds
  \<open>1000 - 11 = 989\<close>. And where the 16-bit loss counter wraps: after packet 10, packet
  65511 one second later puts the counter at 65500; packet 25 one second after that
  is \<open>65511 + 50\<close> modulo 65536 and above 5, and the counter becomes 13, not
  \<open>65500 + 49\<close>.
\<close>

theorem loss_counter_skips_idle_gap_and_wraps:
  "isSynced (after_first_arrival 10 1000)
   \<and> lastPacketNumber (after_first_arrival 10 1000) = 10
   \<and> lostPackets (after_first_arrival 10 1000) = 0
   \<and> int16_at (packet_with_sequence 1000) 7 = 1000
   \<and> lostPackets
       (fst (loop_rx (Some (packet_with_sequence 1000)) 7001 (after_first_arrival 10 1000))) = 0
   \<and> lostPackets
       (fst (loop_rx (Some (packet_with_sequence 1000)) 7001 (after_first_arrival 10 1000)))
       \<noteq> lostPackets (after_first_arrival 10 1000)
           + (int16_at (packet_with_sequence 1000) 7
               - (lastPacketNumber (after_first_arrival 10 1000) + 1))
   \<and> isSynced
       (fst (loop_rx (Some (packet_with_sequence 65511)) 2000 (after_first_arrival 10 1000)))
   \<and> lastPacketNumber
       (fst (loop_rx (Some (packet_with_sequence 65511)) 2000 (after_first_arrival 10 1000)))
       = 65511
   \<and> lostPackets
       (fst (loop_rx (Some (packet_with_sequence 65511)) 2000 (after_first_arrival 10 1000)))
       = 65500
   \<and> (3000 :: 32 word)
       - lastPacketMs
           (fst (loop_rx (Some (packet_with_sequence 65511)) 2000 (after_first_arrival 10 1000)))
       \<le> 5000
   \<and> int16_at (packet_with_sequence 25) 7 = 65511 + 50
   \<and> (5 :: 16 word) < int16_at (packet_with_sequence 25) 7
   \<and> lostPackets
       (fst (loop_rx (Some (packet_with_sequence 25)) 3000
         (fst (loop_rx (Some (packet_with_sequence 65511)) 2000
           (after_first_arrival 10 1000))))) = 13
   \<and> unat (lostPackets
       (fst (loop_rx (Some (packet_with_sequence 25)) 3000
         (fst (loop_rx (Some (packet_with_sequence 65511)) 2000
           (after_first_arrival 10 1000))))))
       \<noteq> unat (lostPackets
           (fst (loop_rx (Some (packet_with_sequence 65511)) 2000
             (after_first_arrival 10 1000)))) + 49"
  by (simp add: after_first_arrival_fields int16_at_packet_with_sequence fst_loop_rx_Some
      track_sequence_def isNextModulo_def)

text \<open>
  C6. When the receiver is synced and the arriving packet number is the previous one
  plus 1 modulo 65536, the arriving number becomes the baseline and the loss counter
  keeps its value; 0 after 65535 is such an arrival.
\<close>

theorem in_sequence_arrival_counts_no_loss:
  assumes "isSynced s"
    and "unat (int16_at payload 7) = (unat (lastPacketNumber s) + 1) mod 65536"
  shows "lastPacketNumber (fst (loop_rx (Some payload) nowMs s)) = int16_at payload 7
       \<and> lostPackets (fst (loop_rx (Some payload) nowMs s)) = lostPackets s"
proof -
  from assms(2) have "int16_at payload 7 = lastPacketNumber s + 1"
    by (simp only: unat_next_iff)
  then show ?thesis
    by (simp add: fst_loop_rx_Some track_sequence_def isNextModulo_def)
qed

theorem in_sequence_arrival_counts_no_loss_witness:
  "isSynced (after_first_arrival 65535 1000)
   \<and> unat (int16_at (packet_with_sequence 0) 7)
       = (unat (lastPacketNumber (after_first_arrival 65535 1000)) + 1) mod 65536
   \<and> lastPacketNumber
       (fst (loop_rx (Some (packet_with_sequence 0)) 2000 (after_first_arrival 65535 1000))) = 0
   \<and> lostPackets
       (fst (loop_rx (Some (packet_with_sequence 0)) 2000 (after_first_arrival 65535 1000))) = 0"
proof -
  have h1: "isSynced (after_first_arrival 65535 1000)"
    by (simp add: after_first_arrival_fields)
  have h2: "unat (int16_at (packet_with_sequence 0) 7)
       = (unat (lastPacketNumber (after_first_arrival 65535 1000)) + 1) mod 65536"
    by (simp add: after_first_arrival_fields int16_at_packet_with_sequence)
  from in_sequence_arrival_counts_no_loss [OF h1 h2] h1 h2 show ?thesis
    by (simp add: after_first_arrival_fields int16_at_packet_with_sequence)
qed

text \<open>
  C7. On an arrival while the receiver is not yet synced (the first arrival), and on
  an arrival more than 5000 ms after the previous one (the difference of the two
  \<open>millis()\<close> values modulo \<open>2^32\<close>), the arriving packet number becomes the baseline
  whatever its value, the loss counter keeps its value, and the receiver is synced.
\<close>

theorem resync_adopts_baseline_without_loss:
  assumes "\<not> isSynced s \<or> 5000 < nowMs - lastPacketMs s"
  shows "lastPacketNumber (fst (loop_rx (Some payload) nowMs s)) = int16_at payload 7
       \<and> lostPackets (fst (loop_rx (Some payload) nowMs s)) = lostPackets s
       \<and> isSynced (fst (loop_rx (Some payload) nowMs s))"
  using assms by (auto simp add: fst_loop_rx_Some track_sequence_def)

theorem resync_adopts_baseline_without_loss_witness:
  "\<not> isSynced receiver_init
   \<and> lastPacketNumber (fst (loop_rx (Some (packet_with_sequence 4711)) 1000 receiver_init)) = 4711
   \<and> lostPackets (fst (loop_rx (Some (packet_with_sequence 4711)) 1000 receiver_init)) = 0
   \<and> isSynced (after_first_arrival 10 1000)
   \<and> 5000 < (7001 :: 32 word) - lastPacketMs (after_first_arrival 10 1000)
   \<and> lastPacketNumber
       (fst (loop_rx (Some (packet_with_sequence 1000)) 7001 (after_first_arrival 10 1000))) = 1000
   \<and> lostPackets
       (fst (loop_rx (Some (packet_with_sequence 1000)) 7001 (after_first_arrival 10 1000))) = 0"
proof -
  have u: "\<not> isSynced receiver_init"
    by (simp add: receiver_init_def)
  have g: "5000 < (7001 :: 32 word) - lastPacketMs (after_first_arrival 10 1000)"
    by (simp add: after_first_arrival_fields)
  have h1: "\<not> isSynced receiver_init \<or> 5000 < (1000 :: 32 word) - lastPacketMs receiver_init"
    using u by simp
  have h2: "\<not> isSynced (after_first_arrival 10 1000)
        \<or> 5000 < (7001 :: 32 word) - lastPacketMs (after_first_arrival 10 1000)"
    using g by simp
  from resync_adopts_baseline_without_loss [OF h1, of "packet_with_sequence 4711"]
    resync_adopts_baseline_without_loss [OF h2, of "packet_with_sequence 1000"] u g
  show ?thesis
    by (simp add: after_first_arrival_fields int16_at_packet_with_sequence receiver_init_def)
qed

text \<open>
  C8. Whatever the receiver's state and the arriving 32-byte record, so in every
  branch of the sequence bookkeeping, the pass of \<open>loop()\<close> writes \<open>'D'\<close>, the 32
  bytes as received and \<open>'E'\<close> before anything else, adds 1 to \<open>receivedPackets\<close>
  and sets \<open>lastPacketMs\<close> to the time of the arrival. \<open>loop_rx\<close> is a total function:
  no state and no record make the pass fail or stop.
\<close>

theorem every_arrival_is_forwarded:
  assumes "length payload = 32"
  shows "(\<exists>rest. snd (loop_rx (Some payload) nowMs s) =
            PrintChar CHR ''D'' # map WriteByte payload @ PrintChar CHR ''E'' # rest)
       \<and> receivedPackets (fst (loop_rx (Some payload) nowMs s)) = receivedPackets s + 1
       \<and> lastPacketMs (fst (loop_rx (Some payload) nowMs s)) = nowMs"
proof -
  have "snd (loop_rx (Some payload) nowMs s) =
          frame payload @ debug_line (int16_at payload 7) payload
            @ print_statistics (fst (loop_rx (Some payload) nowMs s))"
    by (simp add: loop_rx_def on_packet_def Let_def track_sequence_fields)
  then have "\<exists>rest. snd (loop_rx (Some payload) nowMs s) =
            PrintChar CHR ''D'' # map WriteByte payload @ PrintChar CHR ''E'' # rest"
    by (simp add: frame_bytes [OF assms])
  then show ?thesis
    by (simp add: fst_loop_rx_Some track_sequence_fields)
qed

theorem every_arrival_is_forwarded_witness:
  "length (packet_with_sequence 1000) = 32
   \<and> take 34 (snd (loop_rx (Some (packet_with_sequence 1000)) 1500 (after_first_arrival 10 1000)))
       = PrintChar CHR ''D'' # map WriteByte (packet_with_sequence 1000) @ [PrintChar CHR ''E'']
   \<and> receivedPackets
       (fst (loop_rx (Some (packet_with_sequence 1000)) 1500 (after_first_arrival 10 1000))) = 2
   \<and> lastPacketMs
       (fst (loop_rx (Some (packet_with_sequence 1000)) 1500 (after_first_arrival 10 1000))) = 1500"
proof -
  have h: "length (packet_with_sequence 1000) = 32"
    by (rule length_packet_with_sequence)
  from every_arrival_is_forwarded [OF h, of 1500 "after_first_arrival 10 1000"]
  obtain rest where
    out: "snd (loop_rx (Some (packet_with_sequence 1000)) 1500 (after_first_arrival 10 1000)) =
            PrintChar CHR ''D'' # map WriteByte (packet_with_sequence 1000)
              @ PrintChar CHR ''E'' # rest"
    and cnt: "receivedPackets
       (fst (loop_rx (Some (packet_with_sequence 1000)) 1500 (after_first_arrival 10 1000)))
         = receivedPackets (after_first_arrival 10 1000) + 1"
    and ms: "lastPacketMs
       (fst (loop_rx (Some (packet_with_sequence 1000)) 1500 (after_first_arrival 10 1000))) = 1500"
    by blast
  have "take 34 (PrintChar CHR ''D'' # map WriteByte (packet_with_sequence 1000)
              @ PrintChar CHR ''E'' # rest)
        = PrintChar CHR ''D'' # map WriteByte (packet_with_sequence 1000) @ [PrintChar CHR ''E'']"
    by (simp add: h)
  with out cnt ms h show ?thesis
    by (simp add: after_first_arrival_fields)
qed

text \<open>
  C9 on the code. The statistics block follows the \<open>if (radio.available())\<close> block
  instead of standing inside it, so it runs on every pass of \<open>loop()\<close>: after 100
  arrivals, two passes that find no packet print the loss rate twice more, each time
  with the same counters.
\<close>

theorem statistics_repeat_without_arrival:
  "receivedPackets (fst (run_rx (replicate 100 (Some (packet_with_sequence 0), 0)) receiver_init))
     = 100
   \<and> count_statistics (snd (run_rx [(None, 1), (None, 2)]
        (fst (run_rx (replicate 100 (Some (packet_with_sequence 0), 0)) receiver_init)))) = 2
   \<and> fst (run_rx [(None, 1), (None, 2)]
        (fst (run_rx (replicate 100 (Some (packet_with_sequence 0), 0)) receiver_init)))
      = fst (run_rx (replicate 100 (Some (packet_with_sequence 0), 0)) receiver_init)"
proof -
  let ?s = "fst (run_rx (replicate 100 (Some (packet_with_sequence 0), 0)) receiver_init)"
  have r: "receivedPackets ?s = 100"
    by (simp add: receivedPackets_run_rx receiver_init_def)
  have h1: "unat (receivedPackets ?s) mod 100 = 0" by (simp add: r)
  have h2: "0 < receivedPackets ?s" by (simp add: r)
  have "snd (run_rx [(None, 1), (None, 2)] ?s) =
          snd (loop_rx None 1 ?s) @ snd (loop_rx None 2 ?s)"
    by (simp add: split_def fst_loop_rx_None)
  then have c: "count_statistics (snd (run_rx [(None, 1), (None, 2)] ?s)) = 2"
    using idle_pass_repeats_statistics [OF h1 h2, of 1]
      idle_pass_repeats_statistics [OF h1 h2, of 2]
    by (simp add: count_statistics_append)
  have "fst (run_rx [(None, 1), (None, 2)] ?s) = ?s"
    by (simp add: split_def fst_loop_rx_None)
  with r c show ?thesis by simp
qed

text \<open>
  C10. No pass of \<open>loop()\<close> clears \<open>isSynced\<close>: a synced receiver is synced after any
  pass and after any sequence of passes, with or without an arrival and whatever the
  gap; every arrival leaves it synced; and from the start state the receiver is synced
  exactly when a packet has arrived.
\<close>

theorem synced_flag_never_reset:
  "(isSynced s \<longrightarrow>
      isSynced (fst (loop_rx avail nowMs s)) \<and> isSynced (fst (run_rx ins s)))
   \<and> isSynced (fst (loop_rx (Some payload) nowMs s))
   \<and> (isSynced (fst (run_rx ins receiver_init)) \<longleftrightarrow> (\<exists>p \<in> set ins. fst p \<noteq> None))"
  by (simp add: isSynced_loop_rx isSynced_run_rx receiver_init_def)

theorem synced_flag_never_reset_witness:
  "isSynced (after_first_arrival 10 1000)
   \<and> isSynced (fst (loop_rx (Some (packet_with_sequence 500)) 9000 (after_first_arrival 10 1000)))
   \<and> lastPacketNumber
       (fst (loop_rx (Some (packet_with_sequence 500)) 9000 (after_first_arrival 10 1000))) = 500
   \<and> isSynced (fst (run_rx [(None, 1500), (Some (packet_with_sequence 500), 9000)]
        (after_first_arrival 10 1000)))
   \<and> \<not> isSynced (fst (run_rx [(None, 1500), (None, 9000)] receiver_init))
   \<and> isSynced (fst (run_rx [(None, 1500), (Some (packet_with_sequence 500), 9000)] receiver_init))"
proof -
  have h: "isSynced (after_first_arrival 10 1000)"
    by (simp add: after_first_arrival_fields)
  have n: "lastPacketNumber
       (fst (loop_rx (Some (packet_with_sequence 500)) 9000 (after_first_arrival 10 1000))) = 500"
    by (simp add: fst_loop_rx_Some track_sequence_fields int16_at_packet_with_sequence)
  from synced_flag_never_reset [of "after_first_arrival 10 1000"
      "Some (packet_with_sequence 500)" 9000
      "[(None, 1500), (Some (packet_with_sequence 500), 9000)]" "packet_with_sequence 500"]
    synced_flag_never_reset [of receiver_init None 0 "[(None, 1500), (None, 9000)]" "[]"]
    synced_flag_never_reset [of receiver_init None 0
      "[(None, 1500), (Some (packet_with_sequence 500), 9000)]" "[]"]
    h n
  show ?thesis
    by simp
qed


section \<open>Properties of the sender\<close>

lemma readBME280Data_eq:
  "readBME280Data oor a b c s =
     s\<lparr>results := (results s)
          [1 := (if bme_sensor_available s then float_to_int16 oor (a * 100) else 0),
           2 := (if bme_sensor_available s then float_to_int16 oor (b * 10) else 0),
           3 := (if bme_sensor_available s then float_to_int16 oor (c * 100) else 0)]\<rparr>"
  by (simp add: readBME280Data_def)

lemma readMLX90614Data_eq:
  "readMLX90614Data oor a b s =
     s\<lparr>results := (results s)
          [8 := (if mlx_sensor_available s then float_to_int16 oor (a * 100) else 0),
           9 := (if mlx_sensor_available s then float_to_int16 oor (b * 100) else 0)]\<rparr>"
  by (simp add: readMLX90614Data_def)

lemma readTSL2591Data_eq:
  "readTSL2591Data lux s =
     s\<lparr>results := (results s)
          [4 := (if light_sensor_available s then ucast (min lux 65535) else 0)]\<rparr>"
  by (simp add: readTSL2591Data_def)

lemma readCCS811Data_eq:
  "readCCS811Data ready co2 tvoc baseline s =
     s\<lparr>results := (results s)
          [12 := (if ccs811_sensor_available s \<and> ready then co2 else 0),
           13 := (if ccs811_sensor_available s \<and> ready then tvoc else 0),
           14 := (if ccs811_sensor_available s \<and> ready then baseline else 0)]\<rparr>"
  by (simp add: readCCS811Data_def)

lemma readRainDropData_eq:
  "readRainDropData analog digital s =
     s\<lparr>results := (results s)[10 := (if digital then 0 else 1), 11 := word_of_int analog]\<rparr>"
  by (simp add: readRainDropData_def)

lemma readAnemometerData_eq:
  "readAnemometerData pulses s =
     s\<lparr>InterruptCounter := int pulses, wind_revolutions_this_cycle := word_of_int (int pulses),
       results := (results s)[6 := word_of_int (int pulses)]\<rparr>"
  by (simp add: readAnemometerData_def)

lemma readRainReedData_eq:
  "readRainReedData level t1 t2 s =
     s\<lparr>firstLoop := False,
       lastState := (if firstLoop s then level
                     else if level \<noteq> lastState s \<and> 250 < t1 - lastChanged s then level
                     else lastState s),
       lastChanged := (if \<not> firstLoop s \<and> level \<noteq> lastState s \<and> 250 < t1 - lastChanged s
                       then t2 else lastChanged s),
       accumulated_rain_tips :=
         accumulated_rain_tips s + (if rain_tip_registered level t1 s then 1 else 0),
       rain_data_pending := (rain_data_pending s \<or> rain_tip_registered level t1 s),
       results := (results s)
         [5 := accumulated_rain_tips s + (if rain_tip_registered level t1 s then 1 else 0)]\<rparr>"
  by (cases "firstLoop s") (auto simp add: readRainReedData_def rain_tip_registered_def Let_def)


lemma sixteen_elements:
  assumes "length xs = 16"
  obtains a0 a1 a2 a3 a4 a5 a6 a7 a8 a9 a10 a11 a12 a13 a14 a15
  where "xs = [a0, a1, a2, a3, a4, a5, a6, a7, a8, a9, a10, a11, a12, a13, a14, a15]"
proof -
  from assms have "length xs = Suc (Suc (Suc (Suc (Suc (Suc (Suc (Suc
      (Suc (Suc (Suc (Suc (Suc (Suc (Suc (Suc 0)))))))))))))))"
    by simp
  then show thesis
    by (auto simp add: length_Suc_conv intro: that)
qed

lemma collect_readings_eq:
  "collect_readings inp s =
     s\<lparr>time_stamp := float_increment (time_stamp s),
       InterruptCounter := int (wind_pulses inp),
       wind_revolutions_this_cycle := word_of_int (int (wind_pulses inp)),
       firstLoop := False,
       lastState := (if firstLoop s then reed_level inp
                     else if reed_level inp \<noteq> lastState s
                             \<and> 250 < reed_millis_check inp - lastChanged s then reed_level inp
                     else lastState s),
       lastChanged := (if \<not> firstLoop s \<and> reed_level inp \<noteq> lastState s
                          \<and> 250 < reed_millis_check inp - lastChanged s
                       then reed_millis_store inp else lastChanged s),
       accumulated_rain_tips :=
         accumulated_rain_tips s
           + (if rain_tip_registered (reed_level inp) (reed_millis_check inp) s then 1 else 0),
       rain_data_pending :=
         (rain_data_pending s \<or> rain_tip_registered (reed_level inp) (reed_millis_check inp) s),
       results := results (collect_readings inp s)\<rparr>"
  by (simp add: collect_readings_def Let_def readBME280Data_eq readMLX90614Data_eq
      readTSL2591Data_eq readCCS811Data_eq readRainDropData_eq readAnemometerData_eq
      readRainReedData_eq rain_tip_registered_def)

lemma results_collect_readings:
  assumes "length (results s) = 16"
  shows "results (collect_readings inp s) =
     [float_to_int16 (cast_out_of_range inp) (of_nat (float_increment (time_stamp s))),
      (if bme_sensor_available s
       then float_to_int16 (cast_out_of_range inp) (bme_temp inp * 100) else 0),
      (if bme_sensor_available s
       then float_to_int16 (cast_out_of_range inp) (bme_pressure inp * 10) else 0),
      (if bme_sensor_available s
       then float_to_int16 (cast_out_of_range inp) (bme_humidity inp * 100) else 0),
      (if light_sensor_available s then ucast (min (lux_raw inp) 65535) else 0),
      accumulated_rain_tips s
        + (if rain_tip_registered (reed_level inp) (reed_millis_check inp) s then 1 else 0),
      word_of_int (int (wind_pulses inp)),
      packetNumber s,
      (if mlx_sensor_available s
       then float_to_int16 (cast_out_of_range inp) (mlx_sky_temp inp * 100) else 0),
      (if mlx_sensor_available s
       then float_to_int16 (cast_out_of_range inp) (mlx_box_temp inp * 100) else 0),
      (if drop_digital inp then 0 else 1),
      word_of_int (drop_analog inp),
      (if ccs811_sensor_available s \<and> ccs_data_ready inp then ccs_co2 inp else 0),
      (if ccs811_sensor_available s \<and> ccs_data_ready inp then ccs_tvoc inp else 0),
      (if ccs811_sensor_available s \<and> ccs_data_ready inp then ccs_baseline inp else 0),
      0]"
proof -
  from assms obtain a0 a1 a2 a3 a4 a5 a6 a7 a8 a9 a10 a11 a12 a13 a14 a15
    where xs: "results s = [a0, a1, a2, a3, a4, a5, a6, a7, a8, a9, a10, a11, a12, a13, a14, a15]"
    by (rule sixteen_elements)
  show ?thesis
    by (simp add: collect_readings_def Let_def readBME280Data_eq readMLX90614Data_eq
        readTSL2591Data_eq readCCS811Data_eq readRainDropData_eq readAnemometerData_eq
        readRainReedData_eq rain_tip_registered_def xs)
qed


lemma length_results_collect_readings:
  "length (results (collect_readings inp s)) = length (results s)"
  by (simp add: collect_readings_def Let_def readBME280Data_eq readMLX90614Data_eq
      readTSL2591Data_eq readCCS811Data_eq readRainDropData_eq readAnemometerData_eq
      readRainReedData_eq)

lemma transmitData_fields:
  "radio_available (fst (transmitData ok t0 t1 s)) = radio_available s"
  "results (fst (transmitData ok t0 t1 s)) = results s"
  "firstLoop (fst (transmitData ok t0 t1 s)) = firstLoop s"
  "lastState (fst (transmitData ok t0 t1 s)) = lastState s"
  "lastChanged (fst (transmitData ok t0 t1 s)) = lastChanged s"
  "packetNumber (fst (transmitData ok t0 t1 s)) =
     (if radio_available s then packetNumber s + 1 else packetNumber s)"
  by (simp_all add: transmitData_def Let_def)

lemma checkAutoReset_eq:
  "checkAutoReset t s = s\<lparr>reset_pin := (if 3600000 < t then False else reset_pin s)\<rparr>"
  by (simp add: checkAutoReset_def)

lemma loop_tx_eq:
  "loop_tx inp s =
     (checkAutoReset (reset_millis inp)
        (fst (transmitData (radio_write_ok inp) (tx_millis_start inp) (tx_millis_end inp)
               (collect_readings inp s))),
      snd (transmitData (radio_write_ok inp) (tx_millis_start inp) (tx_millis_end inp)
               (collect_readings inp s)))"
  by (simp add: loop_tx_def split_def Let_def)

lemma tx_reachable_consistent:
  assumes "tx_reachable s"
  shows "rain_consistent s"
  using assms
proof (induction rule: tx_reachable.induct)
  case (after_setup bme mlx light radio)
  show ?case
    by (simp add: rain_consistent_def sender_init_def)
next
  case (after_collect s inp)
  then show ?case
    by (subst collect_readings_eq)
      (auto simp add: rain_consistent_def length_results_collect_readings)
next
  case (after_reed s level t1 t2)
  then show ?case
    by (auto simp add: rain_consistent_def readRainReedData_eq)
next
  case (after_transmit s ok t1 t2)
  then show ?case
    by (auto simp add: rain_consistent_def transmitData_def Let_def)
next
  case (after_reset_check s t)
  then show ?case
    by (simp add: rain_consistent_def checkAutoReset_eq)
qed

lemma tx_reachable_loop_tx:
  assumes "tx_reachable s"
  shows "tx_reachable (fst (loop_tx inp s))"
  by (simp add: loop_tx_eq after_reset_check after_transmit after_collect assms)


lemma example_inputs_fields:
  "reed_level (example_inputs level t ok) = level"
  "reed_millis_check (example_inputs level t ok) = t"
  "reed_millis_store (example_inputs level t ok) = t"
  "radio_write_ok (example_inputs level t ok) = ok"
  by (simp_all add: example_inputs_def)

text \<open>
  C2. A call of \<open>transmitData\<close> makes a transmission attempt exactly when the radio
  is available, and then adds 1 to \<open>packetNumber\<close>, the same whether \<open>radio.write\<close>
  reports success or failure; the addition is modulo 65536, so 65535 is followed by 0.
  A call that makes no attempt leaves \<open>packetNumber\<close> as it is, and so does every
  other operation \<open>loop()\<close> calls; a whole pass of \<open>loop()\<close> adds 1 exactly when it
  makes an attempt.
\<close>

theorem sequence_counter_once_per_attempt:
  "packetNumber (fst (transmitData True t0 t1 s)) =
      (if radio_available s then packetNumber s + 1 else packetNumber s)
   \<and> packetNumber (fst (transmitData False t0 t1 s)) =
      (if radio_available s then packetNumber s + 1 else packetNumber s)
   \<and> unat (packetNumber s + 1) = (unat (packetNumber s) + 1) mod 65536
   \<and> (snd (transmitData write_ok t0 t1 s) = NoAttempt \<longleftrightarrow> \<not> radio_available s)
   \<and> packetNumber (readBME280Data oor a b c s) = packetNumber s
   \<and> packetNumber (readMLX90614Data oor a b s) = packetNumber s
   \<and> packetNumber (readTSL2591Data lux s) = packetNumber s
   \<and> packetNumber (readCCS811Data ready co2 tvoc baseline s) = packetNumber s
   \<and> packetNumber (readRainReedData level m0 m1 s) = packetNumber s
   \<and> packetNumber (readRainDropData analog digital s) = packetNumber s
   \<and> packetNumber (readAnemometerData pulses s) = packetNumber s
   \<and> packetNumber (collect_readings inp s) = packetNumber s
   \<and> packetNumber (checkAutoReset m s) = packetNumber s
   \<and> packetNumber (fst (loop_tx inp s)) =
      (if radio_available s then packetNumber s + 1 else packetNumber s)"
proof -
  have u: "unat (packetNumber s + 1) = (unat (packetNumber s) + 1) mod 65536"
    by (simp add: unat_word_ariths)
  have c: "packetNumber (collect_readings inp s) = packetNumber s"
    "radio_available (collect_readings inp s) = radio_available s"
    by (subst collect_readings_eq, simp)+
  have l: "packetNumber (fst (loop_tx inp s)) =
      (if radio_available s then packetNumber s + 1 else packetNumber s)"
    by (simp add: loop_tx_eq checkAutoReset_eq transmitData_fields c)
  have n: "snd (transmitData write_ok t0 t1 s) = NoAttempt \<longleftrightarrow> \<not> radio_available s"
    by (simp add: transmitData_def Let_def)
  show ?thesis
    using u c(1) l n
    by (simp add: transmitData_fields readBME280Data_eq readMLX90614Data_eq
        readTSL2591Data_eq readCCS811Data_eq readRainDropData_eq readAnemometerData_eq
        readRainReedData_eq checkAutoReset_eq)
qed


theorem sequence_counter_once_per_attempt_witness:
  "radio_available ((sender_init True True True True)\<lparr>packetNumber := 65535\<rparr>)
   \<and> packetNumber (fst (transmitData True 10 20
        ((sender_init True True True True)\<lparr>packetNumber := 65535\<rparr>))) = 0
   \<and> packetNumber (fst (transmitData False 10 20
        ((sender_init True True True True)\<lparr>packetNumber := 65535\<rparr>))) = 0
   \<and> packetNumber (fst (loop_tx (example_inputs True 3000 False)
        ((sender_init True True True True)\<lparr>packetNumber := 41\<rparr>))) = 42"
proof -
  have r: "radio_available ((sender_init True True True True)\<lparr>packetNumber := n\<rparr>)" for n
    by (simp add: sender_init_def)
  from sequence_counter_once_per_attempt
      [where s = "(sender_init True True True True)\<lparr>packetNumber := 65535\<rparr>"
         and ?t0.0 = 10 and ?t1.0 = 20]
    sequence_counter_once_per_attempt
      [where s = "(sender_init True True True True)\<lparr>packetNumber := 41\<rparr>"
         and inp = "example_inputs True 3000 False"]
    r
  show ?thesis
    by simp
qed

text \<open>
  C3. In every state the sender reaches with the radio available: a successful
  \<open>transmitData\<close> leaves the accumulator at 0 and adds 1 to
  \<open>successfulTransmissions\<close> only; a failed one leaves the accumulator and its
  pending flag as they are and adds 1 to \<open>failedTransmissions\<close> only. So when a
  pass of \<open>loop()\<close> whose transmission fails is followed by one whose transmission
  succeeds, field 5 of the delivered record is the accumulator before the two passes
  plus the tips registered in the first and in the second (modulo 65536, the width of
  the counter), and the accumulator is 0 afterwards.
\<close>

theorem rain_tips_cleared_only_on_success:
  assumes "tx_reachable s" and "radio_available s"
    and "\<not> radio_write_ok in1" and "radio_write_ok in2"
  shows "accumulated_rain_tips (fst (transmitData True t0 t1 s)) = 0
       \<and> successfulTransmissions (fst (transmitData True t0 t1 s)) = successfulTransmissions s + 1
       \<and> failedTransmissions (fst (transmitData True t0 t1 s)) = failedTransmissions s
       \<and> accumulated_rain_tips (fst (transmitData False t0 t1 s)) = accumulated_rain_tips s
       \<and> rain_data_pending (fst (transmitData False t0 t1 s)) = rain_data_pending s
       \<and> failedTransmissions (fst (transmitData False t0 t1 s)) = failedTransmissions s + 1
       \<and> successfulTransmissions (fst (transmitData False t0 t1 s)) = successfulTransmissions s
       \<and> (\<exists>p1 p2. snd (loop_tx in1 s) = Undelivered p1
            \<and> snd (loop_tx in2 (fst (loop_tx in1 s))) = Delivered p2
            \<and> p1 ! 5 = accumulated_rain_tips s
                + (if rain_tip_registered (reed_level in1) (reed_millis_check in1) s then 1 else 0)
            \<and> p2 ! 5 = accumulated_rain_tips s
                + (if rain_tip_registered (reed_level in1) (reed_millis_check in1) s then 1 else 0)
                + (if rain_tip_registered (reed_level in2) (reed_millis_check in2)
                        (fst (loop_tx in1 s)) then 1 else 0))
       \<and> accumulated_rain_tips (fst (loop_tx in2 (fst (loop_tx in1 s)))) = 0"
proof -
  from assms(1) have inv: "rain_consistent s"
    by (rule tx_reachable_consistent)
  have single: "accumulated_rain_tips (fst (transmitData True t0 t1 s)) = 0
       \<and> successfulTransmissions (fst (transmitData True t0 t1 s)) = successfulTransmissions s + 1
       \<and> failedTransmissions (fst (transmitData True t0 t1 s)) = failedTransmissions s
       \<and> accumulated_rain_tips (fst (transmitData False t0 t1 s)) = accumulated_rain_tips s
       \<and> rain_data_pending (fst (transmitData False t0 t1 s)) = rain_data_pending s
       \<and> failedTransmissions (fst (transmitData False t0 t1 s)) = failedTransmissions s + 1
       \<and> successfulTransmissions (fst (transmitData False t0 t1 s)) = successfulTransmissions s"
    using inv assms(2) by (auto simp add: transmitData_def Let_def rain_consistent_def)
  let ?c1 = "collect_readings in1 s"
  let ?s1 = "fst (loop_tx in1 s)"
  let ?c2 = "collect_readings in2 ?s1"
  let ?d1 = "(if rain_tip_registered (reed_level in1) (reed_millis_check in1) s then 1 else 0)
               :: 16 word"
  let ?d2 = "(if rain_tip_registered (reed_level in2) (reed_millis_check in2) ?s1 then 1 else 0)
               :: 16 word"
  have len: "length (results s) = 16"
    using inv by (simp add: rain_consistent_def)
  have c1_radio: "radio_available ?c1"
    by (subst collect_readings_eq) (simp add: assms(2))
  have c1_acc: "accumulated_rain_tips ?c1 = accumulated_rain_tips s + ?d1"
    by (subst collect_readings_eq) simp
  have c1_field: "results ?c1 ! 5 = accumulated_rain_tips s + ?d1"
    by (simp add: results_collect_readings [OF len])
  have ev1: "snd (loop_tx in1 s) = Undelivered (results ?c1)"
    using c1_radio assms(3) by (simp add: loop_tx_eq transmitData_def Let_def)
  have s1_acc: "accumulated_rain_tips ?s1 = accumulated_rain_tips s + ?d1"
    using c1_radio assms(3) c1_acc
    by (simp add: loop_tx_eq transmitData_def Let_def checkAutoReset_eq)
  have s1_radio: "radio_available ?s1"
    using c1_radio by (simp add: loop_tx_eq transmitData_fields checkAutoReset_eq)
  have s1_reach: "tx_reachable ?s1"
    using assms(1) by (rule tx_reachable_loop_tx)
  then have inv1: "rain_consistent ?s1"
    by (rule tx_reachable_consistent)
  then have len1: "length (results ?s1) = 16"
    by (simp add: rain_consistent_def)
  have c2_radio: "radio_available ?c2"
    by (subst collect_readings_eq) (simp add: s1_radio)
  have c2_field: "results ?c2 ! 5 = accumulated_rain_tips s + ?d1 + ?d2"
    by (simp add: results_collect_readings [OF len1] s1_acc)
  have ev2: "snd (loop_tx in2 ?s1) = Delivered (results ?c2)"
    using c2_radio assms(4) by (simp add: loop_tx_eq transmitData_def Let_def)
  have "tx_reachable ?c2"
    using s1_reach by (rule after_collect)
  then have "rain_consistent ?c2"
    by (rule tx_reachable_consistent)
  then have final: "accumulated_rain_tips (fst (loop_tx in2 ?s1)) = 0"
    using c2_radio assms(4)
    by (auto simp add: loop_tx_eq transmitData_def Let_def checkAutoReset_eq rain_consistent_def)
  from ev1 ev2 c1_field c2_field
  have "\<exists>p1 p2. snd (loop_tx in1 s) = Undelivered p1
            \<and> snd (loop_tx in2 ?s1) = Delivered p2
            \<and> p1 ! 5 = accumulated_rain_tips s + ?d1
            \<and> p2 ! 5 = accumulated_rain_tips s + ?d1 + ?d2"
    by blast
  with single final show ?thesis
    by blast
qed


lemma loop_tx_rain_fields:
  "firstLoop (fst (loop_tx inp s)) = False"
  "lastState (fst (loop_tx inp s)) =
     (if firstLoop s then reed_level inp
      else if reed_level inp \<noteq> lastState s \<and> 250 < reed_millis_check inp - lastChanged s
      then reed_level inp else lastState s)"
  "lastChanged (fst (loop_tx inp s)) =
     (if \<not> firstLoop s \<and> reed_level inp \<noteq> lastState s
         \<and> 250 < reed_millis_check inp - lastChanged s
      then reed_millis_store inp else lastChanged s)"
  "radio_available (fst (loop_tx inp s)) = radio_available s"
  by (simp_all add: loop_tx_eq checkAutoReset_eq transmitData_fields,
      (subst collect_readings_eq, simp)+)

lemma loop_tx_accumulated:
  "accumulated_rain_tips (fst (loop_tx inp s)) =
     (if radio_available s \<and> radio_write_ok inp
         \<and> (rain_data_pending s \<or> rain_tip_registered (reed_level inp) (reed_millis_check inp) s)
      then 0
      else accumulated_rain_tips s
        + (if rain_tip_registered (reed_level inp) (reed_millis_check inp) s then 1 else 0))"
proof -
  let ?c = "collect_readings inp s"
  have c: "radio_available ?c = radio_available s"
    "rain_data_pending ?c =
       (rain_data_pending s \<or> rain_tip_registered (reed_level inp) (reed_millis_check inp) s)"
    "accumulated_rain_tips ?c = accumulated_rain_tips s
        + (if rain_tip_registered (reed_level inp) (reed_millis_check inp) s then 1 else 0)"
    by (subst collect_readings_eq, simp)+
  show ?thesis
    by (simp add: loop_tx_eq checkAutoReset_eq transmitData_def Let_def c)
qed

theorem rain_tips_cleared_only_on_success_witness:
  "tx_reachable (fst (loop_tx (example_inputs False 1000 True) (sender_init True True True True)))
   \<and> radio_available
        (fst (loop_tx (example_inputs False 1000 True) (sender_init True True True True)))
   \<and> \<not> radio_write_ok (example_inputs True 3000 False)
   \<and> radio_write_ok (example_inputs False 5000 True)
   \<and> (\<exists>p1 p2.
         snd (loop_tx (example_inputs True 3000 False)
               (fst (loop_tx (example_inputs False 1000 True) (sender_init True True True True))))
           = Undelivered p1
         \<and> snd (loop_tx (example_inputs False 5000 True)
               (fst (loop_tx (example_inputs True 3000 False)
                 (fst (loop_tx (example_inputs False 1000 True)
                   (sender_init True True True True))))))
           = Delivered p2
         \<and> p1 ! 5 = 1 \<and> p2 ! 5 = 1)
   \<and> accumulated_rain_tips
        (fst (loop_tx (example_inputs False 5000 True)
               (fst (loop_tx (example_inputs True 3000 False)
                 (fst (loop_tx (example_inputs False 1000 True)
                   (sender_init True True True True))))))) = 0"
proof -
  let ?s = "fst (loop_tx (example_inputs False 1000 True) (sender_init True True True True))"
  have h1: "tx_reachable ?s"
    by (rule tx_reachable_loop_tx) (rule after_setup)
  have h2: "radio_available ?s"
    by (simp add: loop_tx_rain_fields sender_init_def)
  have h3: "\<not> radio_write_ok (example_inputs True 3000 False)"
    by (simp add: example_inputs_fields)
  have h4: "radio_write_ok (example_inputs False 5000 True)"
    by (simp add: example_inputs_fields)
  have acc: "accumulated_rain_tips ?s = 0"
    by (simp add: loop_tx_accumulated rain_tip_registered_def sender_init_def)
  have tip1: "rain_tip_registered True 3000 ?s"
    by (simp add: rain_tip_registered_def loop_tx_rain_fields example_inputs_fields
        sender_init_def)
  have tip2: "\<not> rain_tip_registered False 5000 (fst (loop_tx (example_inputs True 3000 False) ?s))"
    by (simp add: rain_tip_registered_def)
  from rain_tips_cleared_only_on_success [OF h1 h2 h3 h4] h1 h2 h3 h4 acc tip1 tip2
  show ?thesis
    by (simp add: example_inputs_fields)
qed















end
